theory Spec2Isabelle
  imports Complex_Main "HOL-Library.Word"
begin

unbundle bit_operations_syntax

section \<open>Data model\<close>

text \<open>
  Modelled from the spec: the declaration of \<open>RallyLocation\<close> (AP_Rally.h) is not part
  of the source file. The spec gives the record as latitude and longitude (signed, 1e-7
  degree integer units, 4 bytes each), altitude (signed metres, 2 bytes) and reserved
  bytes up to the fixed size of 15 bytes, which the source asserts with
  \<open>assert_storage_size<RallyLocation, 15>\<close>. Signed fields are words read with \<open>sint\<close>.
\<close>

record RallyLocation =
  rally_lat :: "32 word"
  rally_lng :: "32 word"
  rally_alt :: "16 word"
  rally_reserved :: "40 word"

definition sizeof_RallyLocation :: nat where
  "sizeof_RallyLocation = 15"

text \<open>\<open>RallyLocation ral_loc = {}\<close>: the value-initialised record.\<close>

definition RallyLocation_zero :: RallyLocation where
  "RallyLocation_zero = \<lparr>rally_lat = 0, rally_lng = 0, rally_alt = 0, rally_reserved = 0\<rparr>"

text \<open>
  Modelled from the spec: the declaration of \<open>Location\<close> (AP_Common) is not part of the
  source file. The fields are the ones the source reads and writes: the
  \<open>relative_alt\<close> flag, the altitude (\<open>int32_t\<close>, centimetres) and the fixed-point
  latitude and longitude (\<open>int32_t\<close>).
\<close>

record Location =
  relative_alt :: bool
  alt :: "32 word"
  lat :: "32 word"
  lng :: "32 word"

text \<open>
  The effects that leave the object, in the order in which they happen: a save of the
  count parameter, a block write to the storage region, a record of the logger.
\<close>

datatype event =
  Param_Save "8 word"
| Storage_Write nat "8 word list"
| Write_RallyPoint "8 word" "8 word" RallyLocation

text \<open>
  The object together with the collaborators it reads: the four parameters of
  \<open>var_info\<close> (\<open>AP_Int8\<close> values are 8-bit words, read with \<open>sint\<close> where the source
  uses the signed value and as they are under a \<open>(uint8_t)\<close> cast; a \<open>float\<close> is
  the real number it denotes, an arithmetic result is rounded to single precision by
  \<open>float_round\<close>, and infinities and NaN are outside the model),
  the time of the last change, the bytes of the storage region, the home location of
  the AHRS, the clock \<open>AP_HAL::millis()\<close> and the effects so far.
\<close>

record AP_Rally =
  rally_point_total_count :: "8 word"
  rally_limit_km :: real
  rally_incl_home :: "8 word"
  rally_fs_mode :: "8 word"
  last_change_time_ms :: "32 word"
  storage :: "8 word list"
  home :: Location
  millis :: "32 word"
  effects :: "event list"

section \<open>Object representation of a record\<close>

text \<open>
  \<open>read_block\<close> and \<open>write_block\<close> copy the 15 bytes of the packed struct; the fields
  are laid out in declaration order, least significant byte first.
\<close>

fun le_bytes :: "nat \<Rightarrow> 'a::len word \<Rightarrow> 8 word list" where
  "le_bytes 0 w = []"
| "le_bytes (Suc n) w = ucast w # le_bytes n (drop_bit 8 w)"

fun le_word :: "8 word list \<Rightarrow> 'a::len word" where
  "le_word [] = 0"
| "le_word (b # bs) = ucast b OR push_bit 8 (le_word bs)"

definition RallyLocation_bytes :: "RallyLocation \<Rightarrow> 8 word list" where
  "RallyLocation_bytes r =
     le_bytes 4 (rally_lat r) @ le_bytes 4 (rally_lng r) @
     le_bytes 2 (rally_alt r) @ le_bytes 5 (rally_reserved r)"

definition RallyLocation_of_bytes :: "8 word list \<Rightarrow> RallyLocation" where
  "RallyLocation_of_bytes bs =
     \<lparr>rally_lat = le_word (take 4 bs),
      rally_lng = le_word (take 4 (drop 4 bs)),
      rally_alt = le_word (take 2 (drop 8 bs)),
      rally_reserved = le_word (take 5 (drop 10 bs))\<rparr>"

section \<open>Collaborators\<close>

text \<open>
  Modelled from the spec: \<open>StorageAccess\<close> is not part of the source file. The region
  is a contiguous byte array of fixed size; \<open>read_block\<close> and \<open>write_block\<close> are
  byte-exact. The spec is silent on a block that reaches beyond the region; here, as
  in the storage library, a byte outside the region is not copied: a read leaves the
  destination byte as it was, a write drops it. The source never writes such a block
  (\<open>set_rally_point_with_index\<close> checks the capacity first) and reads one only when
  the count exceeds the capacity.
\<close>

definition read_block :: "8 word list \<Rightarrow> 8 word list \<Rightarrow> nat \<Rightarrow> nat \<Rightarrow> 8 word list" where
  "read_block st dst addr n =
     map (\<lambda>k. if addr + k < length st then st ! (addr + k) else dst ! k) [0..<n]"

definition write_block :: "8 word list \<Rightarrow> nat \<Rightarrow> 8 word list \<Rightarrow> nat \<Rightarrow> 8 word list" where
  "write_block st addr src n =
     map (\<lambda>a. if addr \<le> a \<and> a < addr + n then src ! (a - addr) else st ! a) [0..<length st]"

text \<open>
  Modelled from the spec: \<open>AP_Param\<close> is not part of the source file. A save of the
  count parameter happens only when the value changes.
\<close>

definition set_and_save_ifchanged :: "8 word \<Rightarrow> AP_Rally \<Rightarrow> AP_Rally" where
  "set_and_save_ifchanged v s =
     (if v = rally_point_total_count s then s
      else s\<lparr>rally_point_total_count := v, effects := effects s @ [Param_Save v]\<rparr>)"

text \<open>
  Single-precision arithmetic. A finite \<open>float\<close> is an integer of at most 24 bits
  times a power of two with exponent at least \<open>-149\<close>. \<open>float_round\<close> rounds a real
  number to the nearest such value, a tie going to the even integer (the rounding of
  IEEE 754 binary32, the default mode of the targets): \<open>float_normalise\<close> scales the
  magnitude into \<open>[2^23, 2^24)\<close>, or stops at the exponent \<open>-149\<close> of the subnormal
  range, and the scaled magnitude is rounded to an integer. The fuel of 300 steps
  covers every magnitude of the single-precision range. \<open>float_mul\<close> is the
  product \<open>a * b\<close> of two \<open>float\<close> operands as the source computes it.
\<close>

definition round_half_even :: "real \<Rightarrow> int" where
  "round_half_even y =
     (let f = \<lfloor>y\<rfloor>; d = y - real_of_int f
      in if d < 1 / 2 then f
         else if 1 / 2 < d then f + 1
         else if even f then f else f + 1)"

fun float_normalise :: "nat \<Rightarrow> real \<Rightarrow> int \<Rightarrow> real \<times> int" where
  "float_normalise 0 m e = (m, e)"
| "float_normalise (Suc n) m e =
     (if 2 ^ 24 \<le> m then float_normalise n (m / 2) (e + 1)
      else if m < 2 ^ 23 \<and> - 149 < e then float_normalise n (m * 2) (e - 1)
      else (m, e))"

definition pow2 :: "int \<Rightarrow> real" where
  "pow2 e = (if 0 \<le> e then 2 ^ nat e else 1 / 2 ^ nat (- e))"

definition float_round :: "real \<Rightarrow> real" where
  "float_round x =
     (case float_normalise 300 \<bar>x\<bar> 0 of
        (m, e) \<Rightarrow> sgn x * (real_of_int (round_half_even m) * pow2 e))"

definition float_mul :: "real \<Rightarrow> real \<Rightarrow> real" where
  "float_mul a b = float_round (a * b)"

text \<open>
  \<open>return_loc.alt = rtl_home_alt\<close> converts a \<open>float\<close> to \<open>int32_t\<close>: the fraction is
  discarded (truncation towards zero).
\<close>

definition float_to_int32 :: "real \<Rightarrow> 32 word" where
  "float_to_int32 x = word_of_int (if 0 \<le> x then \<lfloor>x\<rfloor> else \<lceil>x\<rceil>)"

section \<open>Rally store\<close>

text \<open>\<open>get_rally_total\<close> (AP_Rally.h) is the count under the \<open>(uint8_t)\<close> cast.\<close>

definition get_rally_total :: "AP_Rally \<Rightarrow> 8 word" where
  "get_rally_total s = rally_point_total_count s"

text \<open>
  Modelled from the spec: \<open>get_rally_max\<close> (AP_Rally.h) is not part of the source
  file; the capacity is the region size divided by the record size.
\<close>

definition get_rally_max :: "AP_Rally \<Rightarrow> nat" where
  "get_rally_max s = length (storage s) div sizeof_RallyLocation"

text \<open>
  The result parameter \<open>ret\<close> is passed in and returned: the source leaves it as it
  was when the index is out of range, and overwrites it with the bytes read before
  the sanity check.
\<close>

definition get_rally_point_with_index :: "8 word \<Rightarrow> RallyLocation \<Rightarrow> AP_Rally \<Rightarrow> bool \<times> RallyLocation" where
  "get_rally_point_with_index i ret s =
     (if i \<ge> rally_point_total_count s then (False, ret)
      else
        let ret' = RallyLocation_of_bytes
              (read_block (storage s) (RallyLocation_bytes ret)
                 (unat i * sizeof_RallyLocation) sizeof_RallyLocation)
        in if rally_lat ret' = 0 \<and> rally_lng ret' = 0 then (False, ret')
           else (True, ret'))"

text \<open>
  \<open>num > _rally_point_total_count\<close> compares the \<open>uint8_t\<close> argument with the signed
  value of the \<open>AP_Int8\<close> parameter, both promoted to \<open>int\<close>.
\<close>

definition truncate :: "8 word \<Rightarrow> AP_Rally \<Rightarrow> AP_Rally" where
  "truncate num s =
     (if uint num > sint (rally_point_total_count s) then s
      else set_and_save_ifchanged num s)"

definition set_rally_point_with_index :: "8 word \<Rightarrow> RallyLocation \<Rightarrow> AP_Rally \<Rightarrow> bool \<times> AP_Rally" where
  "set_rally_point_with_index i rallyLoc s =
     (if i \<ge> rally_point_total_count s then (False, s)
      else if unat i \<ge> get_rally_max s then (False, s)
      else (True,
        s\<lparr>storage := write_block (storage s) (unat i * sizeof_RallyLocation)
                       (RallyLocation_bytes rallyLoc) sizeof_RallyLocation,
          last_change_time_ms := millis s,
          effects := effects s @
            [Storage_Write (unat i * sizeof_RallyLocation) (RallyLocation_bytes rallyLoc),
             Write_RallyPoint (rally_point_total_count s) i rallyLoc]\<rparr>))"

definition append_rally :: "RallyLocation \<Rightarrow> AP_Rally \<Rightarrow> bool \<times> AP_Rally" where
  "append_rally loc s =
     (let current_total = get_rally_total s;
          s1 = set_and_save_ifchanged (current_total + 1) s
      in case set_rally_point_with_index current_total loc s1 of
           (False, s2) \<Rightarrow> (False, set_and_save_ifchanged current_total s2)
         | (True, s2) \<Rightarrow> (True, s2))"

section \<open>Location selector\<close>

text \<open>
  \<open>rally_loc.alt*100UL\<close> is computed in unsigned arithmetic and stored in the
  \<open>int32_t\<close> altitude: the sign-extended altitude times 100 plus the home altitude,
  modulo \<open>2^32\<close>.
\<close>

definition rally_location_to_location :: "RallyLocation \<Rightarrow> AP_Rally \<Rightarrow> Location" where
  "rally_location_to_location rally_loc s =
     \<lparr>relative_alt = False,
      alt = scast (rally_alt rally_loc) * 100 + alt (home s),
      lat = rally_lat rally_loc,
      lng = rally_lng rally_loc\<rparr>"

text \<open>
  The loop of \<open>find_nearest_rally_point\<close>. \<open>Location::get_distance\<close> and the virtual
  \<open>is_valid\<close> are not part of the source file and are parameters. The local
  \<open>next_rally\<close> is declared without an initialiser in the loop body; \<open>uninit i\<close> is
  its content at the start of iteration \<open>i\<close>.
\<close>

function find_nearest_loop ::
  "(Location \<Rightarrow> Location \<Rightarrow> real) \<Rightarrow> (Location \<Rightarrow> bool) \<Rightarrow> (8 word \<Rightarrow> RallyLocation) \<Rightarrow>
   AP_Rally \<Rightarrow> Location \<Rightarrow> 8 word \<Rightarrow> real \<Rightarrow> RallyLocation \<Rightarrow> real \<times> RallyLocation" where
  "find_nearest_loop get_distance is_valid uninit s current_loc i min_dis return_loc =
     (if i < rally_point_total_count s then
        (case get_rally_point_with_index i (uninit i) s of
           (False, next_rally) \<Rightarrow>
             find_nearest_loop get_distance is_valid uninit s current_loc (i + 1) min_dis return_loc
         | (True, next_rally) \<Rightarrow>
             (let rally_loc = rally_location_to_location next_rally s;
                  dis = get_distance current_loc rally_loc
              in if is_valid rally_loc \<and> (dis < min_dis \<or> min_dis < 0)
                 then find_nearest_loop get_distance is_valid uninit s current_loc (i + 1) dis next_rally
                 else find_nearest_loop get_distance is_valid uninit s current_loc (i + 1) min_dis return_loc))
      else (min_dis, return_loc))"
  by pat_completeness auto
termination
proof -
  have step: "unat c - unat (i + 1) < unat c - unat i" if "i < c" for i c :: "8 word"
  proof -
    from that have "unat i < unat c"
      by (simp add: word_less_nat_alt)
    moreover have "unat c < 256"
      using unsigned_less [of c, where ?'a = nat] by simp
    ultimately have "unat (i + 1) = unat i + 1"
      by (simp add: unat_word_ariths)
    with \<open>unat i < unat c\<close> show ?thesis
      by simp
  qed
  show ?thesis
    by (relation "measure (\<lambda>(get_distance, is_valid, uninit, s, current_loc, i, min_dis, return_loc).
                    unat (rally_point_total_count s) - unat i)")
       (simp_all add: step)
qed

declare find_nearest_loop.simps [simp del]

definition find_nearest_rally_point ::
  "(Location \<Rightarrow> Location \<Rightarrow> real) \<Rightarrow> (Location \<Rightarrow> bool) \<Rightarrow> (8 word \<Rightarrow> RallyLocation) \<Rightarrow>
   AP_Rally \<Rightarrow> Location \<Rightarrow> RallyLocation \<Rightarrow> bool \<times> RallyLocation" where
  "find_nearest_rally_point get_distance is_valid uninit s current_loc return_loc =
     (case find_nearest_loop get_distance is_valid uninit s current_loc 0 (- 1) return_loc of
        (min_dis, return_loc') \<Rightarrow>
          if rally_limit_km s > 0 \<and> min_dis > float_mul (rally_limit_km s) 1000
          then (False, return_loc')
          else (min_dis \<ge> 0, return_loc'))"

definition calc_best_rally_or_home_location ::
  "(Location \<Rightarrow> Location \<Rightarrow> real) \<Rightarrow> (Location \<Rightarrow> bool) \<Rightarrow> (8 word \<Rightarrow> RallyLocation) \<Rightarrow>
   AP_Rally \<Rightarrow> Location \<Rightarrow> real \<Rightarrow> bool \<Rightarrow> Location" where
  "calc_best_rally_or_home_location get_distance is_valid uninit s current_loc rtl_home_alt failsafe =
     (let ral_loc = RallyLocation_zero;
          home_loc = home s;
          return_loc = home_loc\<lparr>alt := float_to_int32 rtl_home_alt, relative_alt := False\<rparr>;
          include_home = (rally_incl_home s \<noteq> 0);
          include_home' = (if sint (rally_fs_mode s) > 0 \<and> failsafe then False else include_home)
      in if sint (rally_fs_mode s) > 0 \<and> \<not> failsafe then return_loc
         else
           (case find_nearest_rally_point get_distance is_valid uninit s current_loc ral_loc of
              (True, ral_loc') \<Rightarrow>
                (let loc = rally_location_to_location ral_loc' s
                 in if \<not> include_home' \<or> get_distance current_loc loc < get_distance current_loc return_loc
                    then rally_location_to_location ral_loc' s
                    else return_loc)
            | (False, ral_loc') \<Rightarrow> return_loc))"

text \<open>The two-argument overload.\<close>

definition calc_best_rally_or_home_location2 ::
  "(Location \<Rightarrow> Location \<Rightarrow> real) \<Rightarrow> (Location \<Rightarrow> bool) \<Rightarrow> (8 word \<Rightarrow> RallyLocation) \<Rightarrow>
   AP_Rally \<Rightarrow> Location \<Rightarrow> real \<Rightarrow> Location" where
  "calc_best_rally_or_home_location2 get_distance is_valid uninit s current_loc rtl_home_alt =
     calc_best_rally_or_home_location get_distance is_valid uninit s current_loc rtl_home_alt False"

section \<open>Parameter defaults\<close>

text \<open>
  The build macros are not part of the source file; the vehicle class is a value, and
  \<open>APM_BUILD_COPTER_OR_HELI\<close> holds for the copter and the helicopter build. A literal
  such as \<open>0.3f\<close> is the decimal number rounded to single precision.
\<close>

datatype APM_BUILD_TYPE =
  APM_BUILD_ArduCopter | APM_BUILD_Heli | APM_BUILD_ArduPlane | APM_BUILD_Rover | APM_BUILD_Other

definition APM_BUILD_COPTER_OR_HELI :: "APM_BUILD_TYPE \<Rightarrow> bool" where
  "APM_BUILD_COPTER_OR_HELI b = (b = APM_BUILD_ArduCopter \<or> b = APM_BUILD_Heli)"

definition RALLY_LIMIT_KM_DEFAULT :: "APM_BUILD_TYPE \<Rightarrow> real" where
  "RALLY_LIMIT_KM_DEFAULT b =
     (if APM_BUILD_COPTER_OR_HELI b then float_round 0.3
      else if b = APM_BUILD_ArduPlane then float_round 5.0
      else if b = APM_BUILD_Rover then float_round 0.5
      else float_round 1.0)"

definition RALLY_INCLUDE_HOME_DEFAULT :: "APM_BUILD_TYPE \<Rightarrow> 8 word" where
  "RALLY_INCLUDE_HOME_DEFAULT b =
     (if APM_BUILD_COPTER_OR_HELI b then 1
      else if b = APM_BUILD_ArduPlane then 0
      else if b = APM_BUILD_Rover then 1
      else 0)"

text \<open>
  The constructor: \<open>setup_object_defaults\<close> gives every parameter of \<open>var_info\<close> its
  default.
\<close>

definition setup_object_defaults :: "APM_BUILD_TYPE \<Rightarrow> AP_Rally \<Rightarrow> AP_Rally" where
  "setup_object_defaults b s =
     s\<lparr>rally_point_total_count := 0,
       rally_limit_km := RALLY_LIMIT_KM_DEFAULT b,
       rally_incl_home := RALLY_INCLUDE_HOME_DEFAULT b,
       rally_fs_mode := 1\<rparr>"

section \<open>Concrete inputs\<close>

text \<open>
  A store of three records in a region of 45 bytes, a home location, two positions and
  a distance function (the difference of the latitudes), used to run the definitions.
\<close>

definition lat_distance :: "Location \<Rightarrow> Location \<Rightarrow> real" where
  "lat_distance a b = real_of_int \<bar>sint (lat a) - sint (lat b)\<bar>"

definition home0 :: Location where
  "home0 = \<lparr>relative_alt = True, alt = 20000, lat = 5000, lng = 0\<rparr>"

definition rally0 :: RallyLocation where
  "rally0 = \<lparr>rally_lat = 2000, rally_lng = 7, rally_alt = - 5, rally_reserved = 0\<rparr>"

definition rally1 :: RallyLocation where
  "rally1 = \<lparr>rally_lat = 1500, rally_lng = 8, rally_alt = 30, rally_reserved = 0\<rparr>"

definition rally2 :: RallyLocation where
  "rally2 = \<lparr>rally_lat = - 1500, rally_lng = 9, rally_alt = 40, rally_reserved = 0\<rparr>"

definition state0 :: AP_Rally where
  "state0 = \<lparr>rally_point_total_count = 3, rally_limit_km = 0, rally_incl_home = 1,
     rally_fs_mode = 1, last_change_time_ms = 0,
     storage = RallyLocation_bytes rally0 @ RallyLocation_bytes rally1 @ RallyLocation_bytes rally2,
     home = home0, millis = 7, effects = []\<rparr>"

text \<open>The same store with a distance limit of 1 km and the failsafe-mode flag off.\<close>

definition state1 :: AP_Rally where
  "state1 = state0\<lparr>rally_limit_km := 1, rally_fs_mode := 0\<rparr>"

text \<open>
  The same store with the limit 0.7 km as a \<open>float\<close> holds it, \<open>11744051 / 2^24\<close>, and
  the failsafe-mode flag off.
\<close>

definition state2 :: AP_Rally where
  "state2 = state0\<lparr>rally_limit_km := 11744051 / 16777216, rally_fs_mode := 0\<rparr>"

text \<open>A region of 3000 bytes (200 records) with a count of 127.\<close>

definition state127 :: AP_Rally where
  "state127 = state0\<lparr>rally_point_total_count := 127, storage := replicate 3000 0\<rparr>"

definition here0 :: Location where
  "here0 = \<lparr>relative_alt = False, alt = 0, lat = 0, lng = 0\<rparr>"

definition here1 :: Location where
  "here1 = \<lparr>relative_alt = False, alt = 0, lat = 4000, lng = 0\<rparr>"

definition here2 :: Location where
  "here2 = \<lparr>relative_alt = False, alt = 0, lat = 800, lng = 0\<rparr>"

section \<open>Conversion of a record to a location\<close>

lemma sint_alt_sum:
  "sint ((scast (a :: 16 word) :: 32 word) * 100 + b) = signed_take_bit 31 (sint a * 100 + sint b)"
proof -
  have "word_of_int (sint a * 100 + sint b) = (scast a :: 32 word) * 100 + b"
    by simp
  then have "sint ((scast a :: 32 word) * 100 + b) =
      sint (word_of_int (sint a * 100 + sint b) :: 32 word)"
    by (rule arg_cong [OF sym])
  also have "\<dots> = signed_take_bit 31 (sint a * 100 + sint b)"
    by (simp only: sint_sbintrunc') simp
  finally show ?thesis .
qed

text \<open>
  Claim C8. \<open>rally_location_to_location\<close> passes latitude and longitude through
  unchanged and marks the result absolute. Its altitude is the record's altitude, read
  as a signed number (negative values included), times 100 plus the altitude of home,
  in the 32-bit arithmetic of the source; whenever that sum fits \<open>int32_t\<close> it is the
  sum itself.
\<close>

theorem rally_location_to_location_absolute:
  "lat (rally_location_to_location r s) = rally_lat r \<and>
   lng (rally_location_to_location r s) = rally_lng r \<and>
   \<not> relative_alt (rally_location_to_location r s) \<and>
   sint (alt (rally_location_to_location r s)) =
     signed_take_bit 31 (sint (rally_alt r) * 100 + sint (alt (home s))) \<and>
   (- (2 ^ 31) \<le> sint (rally_alt r) * 100 + sint (alt (home s)) \<and>
    sint (rally_alt r) * 100 + sint (alt (home s)) < 2 ^ 31 \<longrightarrow>
      sint (alt (rally_location_to_location r s)) = sint (rally_alt r) * 100 + sint (alt (home s)))"
proof -
  have wrapped: "sint (alt (rally_location_to_location r s)) =
      signed_take_bit 31 (sint (rally_alt r) * 100 + sint (alt (home s)))"
    by (simp only: rally_location_to_location_def Location.simps sint_alt_sum)
  moreover have "sint (alt (rally_location_to_location r s)) =
      sint (rally_alt r) * 100 + sint (alt (home s))"
    if "- (2 ^ 31) \<le> sint (rally_alt r) * 100 + sint (alt (home s))"
      and "sint (rally_alt r) * 100 + sint (alt (home s)) < 2 ^ 31"
    using that by (simp only: wrapped signed_take_bit_int_eq_self)
  ultimately show ?thesis
    by (simp add: rally_location_to_location_def)
qed

theorem rally_location_to_location_absolute_witness:
  "- (2 ^ 31) \<le> sint (rally_alt rally0) * 100 + sint (alt (home state0)) \<and>
   sint (rally_alt rally0) * 100 + sint (alt (home state0)) < 2 ^ 31 \<and>
   sint (rally_alt rally0) = - 5 \<and>
   sint (alt (rally_location_to_location rally0 state0)) = 19500"
proof -
  have v: "sint (rally_alt rally0) = - 5" "sint (alt (home state0)) = 20000"
    by (simp_all add: rally0_def state0_def home0_def)
  then have r: "- (2 ^ 31) \<le> sint (rally_alt rally0) * 100 + sint (alt (home state0)) \<and>
      sint (rally_alt rally0) * 100 + sint (alt (home state0)) < 2 ^ 31"
    by simp
  with rally_location_to_location_absolute [of rally0 state0]
  have "sint (alt (rally_location_to_location rally0 state0)) =
      sint (rally_alt rally0) * 100 + sint (alt (home state0))"
    by blast
  with v r show ?thesis by simp
qed

section \<open>The best return location under the failsafe-mode policy\<close>

lemma state0_nearest_here0:
  "find_nearest_rally_point lat_distance (\<lambda>_. True) (\<lambda>_. RallyLocation_zero) state0 here0
     RallyLocation_zero = (True, rally1)"
  by code_simp

lemma state0_nearest_here1:
  "find_nearest_rally_point lat_distance (\<lambda>_. True) (\<lambda>_. RallyLocation_zero) state0 here1
     RallyLocation_zero = (True, rally0)"
  by code_simp

text \<open>
  Claim C2. With the failsafe-mode flag enabled and \<open>failsafe = false\<close>,
  \<open>calc_best_rally_or_home_location\<close> returns home with the altitude replaced by the
  fallback value (converted to \<open>int32_t\<close>) and marked absolute, whatever the position,
  the fallback altitude, the count and the storage are: no stored rally point is
  consulted.
\<close>

theorem calc_best_non_failsafe_returns_home:
  "0 < sint (rally_fs_mode s) \<Longrightarrow>
   calc_best_rally_or_home_location get_distance is_valid uninit s current_loc rtl_home_alt False =
     (home s)\<lparr>alt := float_to_int32 rtl_home_alt, relative_alt := False\<rparr>"
  by (simp add: calc_best_rally_or_home_location_def)

theorem calc_best_non_failsafe_returns_home_witness:
  "0 < sint (rally_fs_mode state0) \<and>
   find_nearest_rally_point lat_distance (\<lambda>_. True) (\<lambda>_. RallyLocation_zero) state0 here0
     RallyLocation_zero = (True, rally1) \<and>
   lat_distance here0 (rally_location_to_location rally1 state0) < lat_distance here0 (home state0) \<and>
   calc_best_rally_or_home_location lat_distance (\<lambda>_. True) (\<lambda>_. RallyLocation_zero) state0 here0
     (12345 / 10) False = \<lparr>relative_alt = False, alt = 1234, lat = 5000, lng = 0\<rparr>"
proof -
  have h: "0 < sint (rally_fs_mode state0)"
    by (simp add: state0_def)
  have c: "lat_distance here0 (rally_location_to_location rally1 state0) <
      lat_distance here0 (home state0)"
    by (simp add: lat_distance_def here0_def rally_location_to_location_def rally1_def
        state0_def home0_def)
  have "(home state0)\<lparr>alt := float_to_int32 (12345 / 10), relative_alt := False\<rparr> =
      \<lparr>relative_alt = False, alt = 1234, lat = 5000, lng = 0\<rparr>"
    by (simp add: state0_def home0_def float_to_int32_def)
  with calc_best_non_failsafe_returns_home [OF h] h c state0_nearest_here0 show ?thesis
    by simp
qed

text \<open>
  Claim C3. With the failsafe-mode flag enabled and \<open>failsafe = true\<close>, whenever
  \<open>find_nearest_rally_point\<close> succeeds, \<open>calc_best_rally_or_home_location\<close> returns the
  converted rally location: the include-home flag and the distance to home play no
  part.
\<close>

theorem calc_best_failsafe_excludes_home:
  "0 < sint (rally_fs_mode s) \<Longrightarrow>
   find_nearest_rally_point get_distance is_valid uninit s current_loc RallyLocation_zero = (True, r) \<Longrightarrow>
   calc_best_rally_or_home_location get_distance is_valid uninit s current_loc rtl_home_alt True =
     rally_location_to_location r s"
  by (simp add: calc_best_rally_or_home_location_def)

theorem calc_best_failsafe_excludes_home_witness:
  "0 < sint (rally_fs_mode state0) \<and> rally_incl_home state0 \<noteq> 0 \<and>
   find_nearest_rally_point lat_distance (\<lambda>_. True) (\<lambda>_. RallyLocation_zero) state0 here1
     RallyLocation_zero = (True, rally0) \<and>
   lat_distance here1 ((home state0)\<lparr>alt := float_to_int32 300, relative_alt := False\<rparr>) <
     lat_distance here1 (rally_location_to_location rally0 state0) \<and>
   calc_best_rally_or_home_location lat_distance (\<lambda>_. True) (\<lambda>_. RallyLocation_zero) state0 here1
     300 True = rally_location_to_location rally0 state0"
proof -
  have h: "0 < sint (rally_fs_mode state0)" and i: "rally_incl_home state0 \<noteq> 0"
    by (simp_all add: state0_def)
  have c: "lat_distance here1 ((home state0)\<lparr>alt := float_to_int32 300, relative_alt := False\<rparr>) <
     lat_distance here1 (rally_location_to_location rally0 state0)"
    by (simp add: lat_distance_def here1_def rally_location_to_location_def rally0_def
        state0_def home0_def)
  from calc_best_failsafe_excludes_home [OF h state0_nearest_here1] h i c state0_nearest_here1
  show ?thesis by simp
qed

text \<open>
  Claim C10. The constructor gives \<open>FS_MODE\<close> the default 1 for every vehicle class,
  while the defaults of the distance limit and of the include-home flag differ
  between classes. Hence, while \<open>FS_MODE\<close> keeps its default, both overloads of
  \<open>calc_best_rally_or_home_location\<close> return the home fallback location on every
  call that is not failsafe-triggered, whatever is stored.
\<close>

theorem fs_mode_default_enabled:
  "rally_fs_mode (setup_object_defaults b s0) = 1 \<and>
   (\<exists>b1 b2. RALLY_LIMIT_KM_DEFAULT b1 \<noteq> RALLY_LIMIT_KM_DEFAULT b2) \<and>
   (\<exists>b1 b2. RALLY_INCLUDE_HOME_DEFAULT b1 \<noteq> RALLY_INCLUDE_HOME_DEFAULT b2) \<and>
   (rally_fs_mode s = rally_fs_mode (setup_object_defaults b s0) \<longrightarrow>
      calc_best_rally_or_home_location2 get_distance is_valid uninit s current_loc rtl_home_alt =
        (home s)\<lparr>alt := float_to_int32 rtl_home_alt, relative_alt := False\<rparr> \<and>
      calc_best_rally_or_home_location get_distance is_valid uninit s current_loc rtl_home_alt False =
        (home s)\<lparr>alt := float_to_int32 rtl_home_alt, relative_alt := False\<rparr>)"
proof -
  have "RALLY_LIMIT_KM_DEFAULT APM_BUILD_ArduCopter \<noteq> RALLY_LIMIT_KM_DEFAULT APM_BUILD_ArduPlane"
    by code_simp
  moreover have "RALLY_INCLUDE_HOME_DEFAULT APM_BUILD_ArduCopter \<noteq>
      RALLY_INCLUDE_HOME_DEFAULT APM_BUILD_ArduPlane"
    by (simp add: RALLY_INCLUDE_HOME_DEFAULT_def APM_BUILD_COPTER_OR_HELI_def)
  ultimately show ?thesis
    by (auto simp: setup_object_defaults_def calc_best_rally_or_home_location2_def
        calc_best_rally_or_home_location_def)
qed

theorem fs_mode_default_enabled_witness:
  "rally_fs_mode (setup_object_defaults APM_BUILD_ArduPlane state0) = 1 \<and>
   rally_point_total_count (setup_object_defaults APM_BUILD_ArduPlane state0) = 0 \<and>
   calc_best_rally_or_home_location2 lat_distance (\<lambda>_. True) (\<lambda>_. RallyLocation_zero)
     ((setup_object_defaults APM_BUILD_ArduPlane state0)\<lparr>rally_point_total_count := 3\<rparr>) here0 300 =
     \<lparr>relative_alt = False, alt = 300, lat = 5000, lng = 0\<rparr>"
proof -
  have "rally_fs_mode ((setup_object_defaults APM_BUILD_ArduPlane state0)\<lparr>rally_point_total_count := 3\<rparr>) =
      rally_fs_mode (setup_object_defaults APM_BUILD_ArduPlane state0)"
    by simp
  moreover have "(home ((setup_object_defaults APM_BUILD_ArduPlane state0)\<lparr>rally_point_total_count := 3\<rparr>))
      \<lparr>alt := float_to_int32 300, relative_alt := False\<rparr> =
      \<lparr>relative_alt = False, alt = 300, lat = 5000, lng = 0\<rparr>"
    by (simp add: setup_object_defaults_def state0_def home0_def float_to_int32_def)
  ultimately show ?thesis
    using fs_mode_default_enabled [of APM_BUILD_ArduPlane state0
        "(setup_object_defaults APM_BUILD_ArduPlane state0)\<lparr>rally_point_total_count := 3\<rparr>"
        lat_distance "\<lambda>_. True" "\<lambda>_. RallyLocation_zero" here0 300]
    by (simp add: setup_object_defaults_def)
qed

section \<open>Bytes of a record\<close>

lemma length_le_bytes: "length (le_bytes n w) = n"
  by (induction n arbitrary: w) simp_all

lemma byte_step:
  "ucast (ucast w :: 8 word) OR push_bit 8 (take_bit m (drop_bit 8 w)) = take_bit (8 + m) w"
  for w :: "'a::len word"
proof (rule bit_word_eqI)
  fix k
  assume "k < LENGTH('a)"
  then show "bit (ucast (ucast w :: 8 word) OR push_bit 8 (take_bit m (drop_bit 8 w))) k =
      bit (take_bit (8 + m) w) k"
    by (cases "k < 8") (auto simp: bit_simps)
qed

lemma le_word_le_bytes_take_bit: "le_word (le_bytes n w) = take_bit (8 * n) w"
proof (induction n arbitrary: w)
  case 0
  show ?case by simp
next
  case (Suc n)
  show ?case by (simp add: Suc byte_step)
qed

lemma le_word_le_bytes: "LENGTH('a) \<le> 8 * n \<Longrightarrow> le_word (le_bytes n w) = w"
  for w :: "'a::len word"
  by (simp add: le_word_le_bytes_take_bit take_bit_word_eq_self)

lemma length_RallyLocation_bytes: "length (RallyLocation_bytes r) = sizeof_RallyLocation"
  by (simp add: RallyLocation_bytes_def sizeof_RallyLocation_def length_le_bytes)

lemma RallyLocation_of_bytes_bytes: "RallyLocation_of_bytes (RallyLocation_bytes r) = r"
  by (simp add: RallyLocation_of_bytes_def RallyLocation_bytes_def length_le_bytes le_word_le_bytes)

lemma read_block_write_block:
  assumes "addr + n \<le> length st" and "length src = n"
  shows "read_block (write_block st addr src n) dst addr n = src"
proof (rule nth_equalityI)
  show "length (read_block (write_block st addr src n) dst addr n) = length src"
    using assms by (simp add: read_block_def)
next
  fix k
  assume "k < length (read_block (write_block st addr src n) dst addr n)"
  then have "k < n" by (simp add: read_block_def)
  with assms show "read_block (write_block st addr src n) dst addr n ! k = src ! k"
    by (simp add: read_block_def write_block_def)
qed

lemma slot_in_region:
  "i < length st div sizeof_RallyLocation \<Longrightarrow>
   i * sizeof_RallyLocation + sizeof_RallyLocation \<le> length st"
proof -
  assume "i < length st div sizeof_RallyLocation"
  then have "Suc i \<le> length st div sizeof_RallyLocation" by simp
  then have "Suc i * sizeof_RallyLocation \<le> length st"
    by (simp add: sizeof_RallyLocation_def less_eq_div_iff_mult_less_eq)
  then show ?thesis by simp
qed

section \<open>Arithmetic of the 8-bit count\<close>

lemma sint_le_uint: "sint c \<le> uint c" for c :: "'a::len word"
proof -
  have "- (2 ^ (LENGTH('a) - Suc 0)) \<le> (0 :: int)" by simp
  also have "0 \<le> uint c" by simp
  finally show ?thesis
    by (simp only: sint_uint signed_take_bit_int_less_eq_self_iff)
qed

lemma uint_le_sint_imp_le: "uint num \<le> sint c \<Longrightarrow> num \<le> c" for num c :: "'a::len word"
  using sint_le_uint [of c] by (simp add: word_le_def)

lemma sint_eq_uint_small: "unat c \<le> 127 \<Longrightarrow> sint c = uint c" for c :: "8 word"
proof -
  assume small: "unat c \<le> 127"
  have "uint c < 128"
    using small uint_nat [of c] by linarith
  then have "uint c < 2 ^ 7"
    by simp
  moreover have "- (2 ^ 7) \<le> uint c"
    by (rule order_trans [of _ 0]) simp_all
  ultimately have "signed_take_bit 7 (uint c) = uint c"
    by (rule signed_take_bit_int_eq_self [rotated])
  then show ?thesis
    by (simp add: sint_uint)
qed

lemma sint_negative_from_128: "128 \<le> unat c \<Longrightarrow> sint c < 0" for c :: "8 word"
proof (rule ccontr)
  assume big: "128 \<le> unat c" and "\<not> sint c < 0"
  then have nn: "0 \<le> sint c" by simp
  have lt: "sint c < 128"
    using sint_lt [of c] by simp
  have "uint c = take_bit 8 (sint c)"
    using uint_sint [of c] by simp
  also from nn lt have "\<dots> = sint c"
    by (simp add: take_bit_int_eq_self)
  finally have "uint c < 128"
    using lt by simp
  with big uint_nat [of c] show False
    by linarith
qed

lemma unat_succ_byte: "unat (c + 1) = (if c = 255 then 0 else unat c + 1)" for c :: "8 word"
proof (cases "c = 255")
  case True
  then show ?thesis by simp
next
  case False
  then have "unat c \<noteq> 255"
    by (simp add: word_unat_eq_iff)
  moreover have "unat c < 256"
    using unsigned_less [of c, where ?'a = nat] by simp
  ultimately show ?thesis
    using False by (simp add: unat_word_ariths)
qed

lemma succ_le_self_iff: "c + 1 \<le> c \<longleftrightarrow> c = 255" for c :: "8 word"
  by (simp add: word_le_nat_alt unat_succ_byte)

section \<open>The rally store\<close>

text \<open>
  What \<open>truncate\<close> does. It compares its argument with the count parameter, an
  \<open>AP_Int8\<close> read as a signed value: line 91 has no \<open>(uint8_t)\<close> cast, unlike lines
  76, 112 and 153. An argument strictly greater than that value changes nothing at
  all. An argument less than or equal to it becomes the count, the storage bytes stay
  as they are, and every index below the new count reads as before. The signed value
  is the visible count \<open>get_rally_total\<close> whenever that is at most 127; from 128 on
  it is negative, and \<open>truncate\<close> changes nothing whatever its argument is.
\<close>

lemma truncate_only_shrinks:
  "(sint (rally_point_total_count s) < uint num \<longrightarrow> truncate num s = s) \<and>
   (uint num \<le> sint (rally_point_total_count s) \<longrightarrow>
      rally_point_total_count (truncate num s) = num \<and>
      get_rally_total (truncate num s) = num \<and>
      storage (truncate num s) = storage s \<and>
      (\<forall>i ret. i < num \<longrightarrow>
         get_rally_point_with_index i ret (truncate num s) = get_rally_point_with_index i ret s)) \<and>
   (unat (get_rally_total s) \<le> 127 \<longrightarrow>
      sint (rally_point_total_count s) = uint (get_rally_total s))"
proof -
  have "get_rally_point_with_index i ret (truncate num s) = get_rally_point_with_index i ret s"
    if "uint num \<le> sint (rally_point_total_count s)" and "i < num" for i ret
  proof -
    from that(1) have "num \<le> rally_point_total_count s"
      by (rule uint_le_sint_imp_le)
    with that(2) have "i < rally_point_total_count s"
      by simp
    with that show ?thesis
      by (simp add: get_rally_point_with_index_def truncate_def set_and_save_ifchanged_def
          not_le [symmetric])
  qed
  then show ?thesis
    by (simp add: truncate_def set_and_save_ifchanged_def get_rally_total_def sint_eq_uint_small)
qed

lemma truncate_no_op_from_128:
  "128 \<le> unat (rally_point_total_count s) \<Longrightarrow> truncate num s = s"
proof -
  assume "128 \<le> unat (rally_point_total_count s)"
  then have "sint (rally_point_total_count s) < 0"
    by (rule sint_negative_from_128)
  moreover have "0 \<le> uint num" by simp
  ultimately have "sint (rally_point_total_count s) < uint num"
    by linarith
  then show ?thesis
    by (simp add: truncate_def)
qed

text \<open>
  Claim C9. For an argument less than or equal to the current count, \<open>truncate\<close> is to
  set the count to the argument. The source does so up to a visible count of 127 and
  not beyond: a count of 127 in a region of 200 records grows to 128 by a successful
  \<open>append\<close>, and then \<open>truncate(0)\<close>, whose argument is below the count, leaves the
  count at 128.
\<close>

theorem truncate_signed_count_no_op:
  "get_rally_total state127 = 127 \<and>
   fst (append_rally rally0 state127) \<and>
   get_rally_total (snd (append_rally rally0 state127)) = 128 \<and>
   (0 :: 8 word) \<le> get_rally_total (snd (append_rally rally0 state127)) \<and>
   truncate 0 (snd (append_rally rally0 state127)) = snd (append_rally rally0 state127) \<and>
   get_rally_total (truncate 0 (snd (append_rally rally0 state127))) = 128"
proof -
  have a: "get_rally_total state127 = 127"
    by (simp add: state127_def get_rally_total_def)
  have b: "fst (append_rally rally0 state127)"
    and c: "get_rally_total (snd (append_rally rally0 state127)) = 128"
    by (simp_all add: append_rally_def get_rally_total_def set_and_save_ifchanged_def
        set_rally_point_with_index_def get_rally_max_def state127_def sizeof_RallyLocation_def Let_def)
  from c have "128 \<le> unat (rally_point_total_count (snd (append_rally rally0 state127)))"
    by (simp add: get_rally_total_def)
  then have "truncate 0 (snd (append_rally rally0 state127)) = snd (append_rally rally0 state127)"
    by (rule truncate_no_op_from_128)
  with a b c show ?thesis by simp
qed

text \<open>
  Claim C5, as the source has it. An index at or beyond the count makes
  \<open>get_rally_point_with_index\<close> report absent, with the result record left as it was,
  and makes \<open>set_rally_point_with_index\<close> fail, with the state unchanged (no write, no
  time stamp, no log record). An index at or beyond the capacity makes
  \<open>set_rally_point_with_index\<close> fail in the same way. \<open>get_rally_point_with_index\<close>
  checks the index against the count only: it reports absent for an index at or
  beyond the capacity when the count does not exceed the capacity.
\<close>

theorem out_of_range_fails:
  "(rally_point_total_count s \<le> i \<longrightarrow>
      get_rally_point_with_index i ret s = (False, ret) \<and>
      set_rally_point_with_index i r s = (False, s)) \<and>
   (get_rally_max s \<le> unat i \<longrightarrow> set_rally_point_with_index i r s = (False, s)) \<and>
   (get_rally_max s \<le> unat i \<and> unat (rally_point_total_count s) \<le> get_rally_max s \<longrightarrow>
      get_rally_point_with_index i ret s = (False, ret))"
proof -
  have "rally_point_total_count s \<le> i"
    if "get_rally_max s \<le> unat i" and "unat (rally_point_total_count s) \<le> get_rally_max s"
    using that by (simp add: word_le_nat_alt)
  then show ?thesis
    by (simp add: get_rally_point_with_index_def set_rally_point_with_index_def)
qed

theorem out_of_range_fails_witness:
  "rally_point_total_count state0 \<le> 3 \<and> get_rally_max state0 \<le> unat (3 :: 8 word) \<and>
   unat (rally_point_total_count state0) \<le> get_rally_max state0 \<and>
   get_rally_point_with_index 3 rally1 state0 = (False, rally1) \<and>
   set_rally_point_with_index 3 rally1 state0 = (False, state0)"
proof -
  have h: "rally_point_total_count state0 \<le> 3" "get_rally_max state0 \<le> unat (3 :: 8 word)"
    "unat (rally_point_total_count state0) \<le> get_rally_max state0"
    by code_simp+
  with out_of_range_fails [of state0 3 rally1 rally1] show ?thesis
    by blast
qed

text \<open>
  The claim as stated fails where the count exceeds the capacity: with a count of 4 on
  a region of three records, index 3 is at the capacity, the read finds no byte of
  the region, and the result record, which held a point, is reported present.
\<close>

theorem get_beyond_capacity_counterexample:
  "get_rally_max (state0\<lparr>rally_point_total_count := 4\<rparr>) \<le> unat (3 :: 8 word) \<and>
   fst (get_rally_point_with_index 3 rally0 (state0\<lparr>rally_point_total_count := 4\<rparr>))"
  by code_simp

text \<open>
  Claim C6, as the source has it. After \<open>set_rally_point_with_index\<close> has succeeded at
  an index, \<open>get_rally_point_with_index\<close> at that index (with no write in between)
  reads back exactly the record that was set, whatever the result record held before,
  and reports it present unless its latitude and longitude are both 0; such a record
  is reported absent.
\<close>

theorem set_then_get:
  "set_rally_point_with_index i r s = (True, s') \<Longrightarrow>
   get_rally_point_with_index i ret s' = (rally_lat r \<noteq> 0 \<or> rally_lng r \<noteq> 0, r)"
proof -
  assume ok: "set_rally_point_with_index i r s = (True, s')"
  then have lt: "i < rally_point_total_count s" and cap: "unat i < get_rally_max s"
    by (auto simp: set_rally_point_with_index_def split: if_splits)
  from ok lt cap have s': "storage s' = write_block (storage s) (unat i * sizeof_RallyLocation)
        (RallyLocation_bytes r) sizeof_RallyLocation"
    and cnt: "rally_point_total_count s' = rally_point_total_count s"
    by (auto simp: set_rally_point_with_index_def not_le [symmetric])
  from cap have "unat i * sizeof_RallyLocation + sizeof_RallyLocation \<le> length (storage s)"
    unfolding get_rally_max_def by (rule slot_in_region)
  then have "read_block (storage s') (RallyLocation_bytes ret) (unat i * sizeof_RallyLocation)
      sizeof_RallyLocation = RallyLocation_bytes r"
    unfolding s' by (rule read_block_write_block) (rule length_RallyLocation_bytes)
  with lt cnt show ?thesis
    by (auto simp: get_rally_point_with_index_def RallyLocation_of_bytes_bytes not_le [symmetric])
qed

theorem set_then_get_witness:
  "(1 :: 8 word) < rally_point_total_count state0 \<and>
   fst (set_rally_point_with_index 1 rally0 state0) \<and>
   get_rally_point_with_index 1 RallyLocation_zero (snd (set_rally_point_with_index 1 rally0 state0)) =
     (True, rally0)"
proof -
  have a: "(1 :: 8 word) < rally_point_total_count state0"
    and b: "fst (set_rally_point_with_index 1 rally0 state0)"
    by code_simp+
  then have "set_rally_point_with_index 1 rally0 state0 =
      (True, snd (set_rally_point_with_index 1 rally0 state0))"
    by (simp add: prod_eq_iff)
  from set_then_get [OF this, of RallyLocation_zero] a b show ?thesis
    by (simp add: rally0_def)
qed

text \<open>
  The claim as stated fails for a record with latitude 0 and longitude 0: it is set
  with success at index 1 and reported absent by the next read.
\<close>

theorem set_then_get_zero_counterexample:
  "(1 :: 8 word) < rally_point_total_count state0 \<and>
   fst (set_rally_point_with_index 1
     \<lparr>rally_lat = 0, rally_lng = 0, rally_alt = 25, rally_reserved = 0\<rparr> state0) \<and>
   \<not> fst (get_rally_point_with_index 1 RallyLocation_zero
     (snd (set_rally_point_with_index 1
       \<lparr>rally_lat = 0, rally_lng = 0, rally_alt = 25, rally_reserved = 0\<rparr> state0)))"
  by code_simp

text \<open>
  Claim C4. \<open>append\<close> saves the count plus one, then writes the record at the index
  of the old count; when that write fails it saves the old count again. It succeeds
  exactly when the old count is below the capacity (and is not 255). On success the
  visible count has grown by exactly 1 and the effects are the save, the block write
  at the old count's slot and the log record, in this order. On failure the count and
  the storage are as before and the effects are the two saves. With the old count
  equal to the capacity it fails.
\<close>

theorem append_rally_count:
  "(fst (append_rally loc s) \<longleftrightarrow>
      rally_point_total_count s \<noteq> 255 \<and> unat (rally_point_total_count s) < get_rally_max s) \<and>
   (fst (append_rally loc s) \<longrightarrow>
      unat (get_rally_total (snd (append_rally loc s))) = unat (get_rally_total s) + 1 \<and>
      storage (snd (append_rally loc s)) =
        write_block (storage s) (unat (rally_point_total_count s) * sizeof_RallyLocation)
          (RallyLocation_bytes loc) sizeof_RallyLocation \<and>
      effects (snd (append_rally loc s)) = effects s @
        [Param_Save (rally_point_total_count s + 1),
         Storage_Write (unat (rally_point_total_count s) * sizeof_RallyLocation) (RallyLocation_bytes loc),
         Write_RallyPoint (rally_point_total_count s + 1) (rally_point_total_count s) loc]) \<and>
   (\<not> fst (append_rally loc s) \<longrightarrow>
      get_rally_total (snd (append_rally loc s)) = get_rally_total s \<and>
      storage (snd (append_rally loc s)) = storage s \<and>
      effects (snd (append_rally loc s)) = effects s @
        [Param_Save (rally_point_total_count s + 1), Param_Save (rally_point_total_count s)]) \<and>
   (unat (get_rally_total s) = get_rally_max s \<longrightarrow> \<not> fst (append_rally loc s))"
proof (cases "rally_point_total_count s \<noteq> 255 \<and> unat (rally_point_total_count s) < get_rally_max s")
  case True
  then have "\<not> rally_point_total_count s + 1 \<le> rally_point_total_count s"
    by (simp add: succ_le_self_iff)
  with True show ?thesis
    by (simp add: append_rally_def get_rally_total_def set_and_save_ifchanged_def
        set_rally_point_with_index_def get_rally_max_def unat_succ_byte Let_def)
next
  case False
  then have "rally_point_total_count s + 1 \<le> rally_point_total_count s \<or>
      get_rally_max s \<le> unat (rally_point_total_count s)"
    by (auto simp: succ_le_self_iff)
  with False show ?thesis
    by (auto simp: append_rally_def get_rally_total_def set_and_save_ifchanged_def
        set_rally_point_with_index_def get_rally_max_def Let_def)
qed

theorem append_rally_count_witness:
  "unat (get_rally_total state0) = get_rally_max state0 \<and>
   \<not> fst (append_rally rally1 state0) \<and>
   get_rally_total (snd (append_rally rally1 state0)) = 3 \<and>
   effects (snd (append_rally rally1 state0)) = [Param_Save 4, Param_Save 3] \<and>
   fst (append_rally rally1 (state0\<lparr>rally_point_total_count := 2\<rparr>)) \<and>
   get_rally_total (snd (append_rally rally1 (state0\<lparr>rally_point_total_count := 2\<rparr>))) = 3 \<and>
   effects (snd (append_rally rally1 (state0\<lparr>rally_point_total_count := 2\<rparr>))) =
     [Param_Save 3, Storage_Write 30 (RallyLocation_bytes rally1), Write_RallyPoint 3 2 rally1]"
proof -
  have full: "unat (get_rally_total state0) = get_rally_max state0"
    by code_simp
  have room: "rally_point_total_count (state0\<lparr>rally_point_total_count := 2\<rparr>) \<noteq> 255 \<and>
      unat (rally_point_total_count (state0\<lparr>rally_point_total_count := 2\<rparr>)) <
        get_rally_max (state0\<lparr>rally_point_total_count := 2\<rparr>)"
    by code_simp
  have v: "get_rally_total state0 = 3" "effects state0 = []"
    "rally_point_total_count state0 = 3"
    by (simp_all add: state0_def get_rally_total_def)
  have w: "unat (get_rally_total (snd (append_rally rally1 (state0\<lparr>rally_point_total_count := 2\<rparr>)))) = 3
      \<Longrightarrow> get_rally_total (snd (append_rally rally1 (state0\<lparr>rally_point_total_count := 2\<rparr>))) = 3"
    by (simp add: word_unat_eq_iff)
  from append_rally_count [of rally1 state0]
    append_rally_count [of rally1 "state0\<lparr>rally_point_total_count := 2\<rparr>"] full room v w
  show ?thesis
    by (simp add: get_rally_total_def sizeof_RallyLocation_def)
qed

section \<open>The nearest valid rally point\<close>

lemma unat_succ_below: "i < c \<Longrightarrow> unat (i + 1) = unat i + 1" for i c :: "8 word"
proof -
  assume "i < c"
  then have "unat i < unat c" by (simp add: word_less_nat_alt)
  moreover have "unat c < 256"
    using unsigned_less [of c, where ?'a = nat] by simp
  ultimately have "i \<noteq> 255" by auto
  then show ?thesis by (simp add: unat_succ_byte)
qed

lemma find_nearest_loop_done:
  "\<not> i < rally_point_total_count s \<Longrightarrow>
   find_nearest_loop get_distance is_valid uninit s current_loc i min_dis return_loc =
     (min_dis, return_loc)"
  by (subst find_nearest_loop.simps) simp

lemma find_nearest_loop_take:
  "i < rally_point_total_count s \<Longrightarrow>
   get_rally_point_with_index i (uninit i) s = (True, next_rally) \<Longrightarrow>
   is_valid (rally_location_to_location next_rally s) \<Longrightarrow>
   get_distance current_loc (rally_location_to_location next_rally s) < min_dis \<or> min_dis < 0 \<Longrightarrow>
   find_nearest_loop get_distance is_valid uninit s current_loc i min_dis return_loc =
     find_nearest_loop get_distance is_valid uninit s current_loc (i + 1)
       (get_distance current_loc (rally_location_to_location next_rally s)) next_rally"
  by (subst find_nearest_loop.simps) (simp add: Let_def)

lemma find_nearest_loop_keep:
  "i < rally_point_total_count s \<Longrightarrow>
   get_rally_point_with_index i (uninit i) s = (ok, next_rally) \<Longrightarrow>
   \<not> (ok \<and> is_valid (rally_location_to_location next_rally s) \<and>
      (get_distance current_loc (rally_location_to_location next_rally s) < min_dis \<or> min_dis < 0)) \<Longrightarrow>
   find_nearest_loop get_distance is_valid uninit s current_loc i min_dis return_loc =
     find_nearest_loop get_distance is_valid uninit s current_loc (i + 1) min_dis return_loc"
  by (subst find_nearest_loop.simps) (auto simp: Let_def split: bool.splits)

lemma find_nearest_loop_beyond_limit:
  "\<forall>j r. get_rally_point_with_index j (uninit j) s = (True, r) \<and>
      is_valid (rally_location_to_location r s) \<longrightarrow>
      L < get_distance current_loc (rally_location_to_location r s) \<Longrightarrow>
   min_dis = - 1 \<or> L < min_dis \<Longrightarrow>
   fst (find_nearest_loop get_distance is_valid uninit s current_loc i min_dis return_loc) = - 1 \<or>
   L < fst (find_nearest_loop get_distance is_valid uninit s current_loc i min_dis return_loc)"
proof (induction get_distance is_valid uninit s current_loc i min_dis return_loc
    rule: find_nearest_loop.induct)
  case (1 get_distance is_valid uninit s current_loc i min_dis return_loc)
  show ?case
  proof (cases "i < rally_point_total_count s")
    case False
    with "1.prems" show ?thesis
      by (simp add: find_nearest_loop_done)
  next
    case True
    obtain ok next_rally where g: "get_rally_point_with_index i (uninit i) s = (ok, next_rally)"
      by (cases "get_rally_point_with_index i (uninit i) s")
    show ?thesis
    proof (cases "ok \<and> is_valid (rally_location_to_location next_rally s) \<and>
        (get_distance current_loc (rally_location_to_location next_rally s) < min_dis \<or> min_dis < 0)")
      case update: True
      with g have g': "get_rally_point_with_index i (uninit i) s = (True, next_rally)"
        by simp
      with update "1.prems"(1)
      have far: "L < get_distance current_loc (rally_location_to_location next_rally s)"
        by blast
      from update have c: "is_valid (rally_location_to_location next_rally s) \<and>
          (get_distance current_loc (rally_location_to_location next_rally s) < min_dis \<or> min_dis < 0)"
        by simp
      from "1.IH"(1) [OF True g' [symmetric] refl refl refl c "1.prems"(1)] far
      show ?thesis
        using True g' c by (simp add: find_nearest_loop_take)
    next
      case keep: False
      have "fst (find_nearest_loop get_distance is_valid uninit s current_loc (i + 1) min_dis return_loc) = - 1 \<or>
          L < fst (find_nearest_loop get_distance is_valid uninit s current_loc (i + 1) min_dis return_loc)"
      proof (cases ok)
        case False
        with g have "(False, next_rally) = get_rally_point_with_index i (uninit i) s"
          by simp
        from "1.IH"(3) [OF True this refl "1.prems"] show ?thesis .
      next
        case ok: True
        with g have g': "(True, next_rally) = get_rally_point_with_index i (uninit i) s"
          by simp
        from keep ok have "\<not> (is_valid (rally_location_to_location next_rally s) \<and>
            (get_distance current_loc (rally_location_to_location next_rally s) < min_dis \<or> min_dis < 0))"
          by simp
        from "1.IH"(2) [OF True g' refl refl refl this "1.prems"] show ?thesis .
      qed
      moreover have "find_nearest_loop get_distance is_valid uninit s current_loc i min_dis return_loc =
          find_nearest_loop get_distance is_valid uninit s current_loc (i + 1) min_dis return_loc"
        using True g keep by (rule find_nearest_loop_keep)
      ultimately show ?thesis
        by (simp only:)
    qed
  qed
qed

text \<open>
  Claim C1, as the source has it. The limit in metres is the \<open>float\<close> product
  \<open>_rally_limit_km*1000.0f\<close> of line 168, the exact product rounded to single
  precision. With a distance limit greater than 0, when every valid stored rally point
  (every point the scan accepts) lies farther from the current position than that
  product, \<open>find_nearest_rally_point\<close> reports failure and
  \<open>calc_best_rally_or_home_location\<close> returns the home fallback location, whatever
  the include-home flag, the failsafe-mode flag and the failsafe argument are.
\<close>

theorem distance_limit_veto:
  assumes "0 < rally_limit_km s"
    and "\<forall>j r. get_rally_point_with_index j (uninit j) s = (True, r) \<and>
      is_valid (rally_location_to_location r s) \<longrightarrow>
      float_mul (rally_limit_km s) 1000 <
        get_distance current_loc (rally_location_to_location r s)"
  shows "\<not> fst (find_nearest_rally_point get_distance is_valid uninit s current_loc return_loc) \<and>
    calc_best_rally_or_home_location get_distance is_valid uninit s current_loc rtl_home_alt failsafe =
      (home s)\<lparr>alt := float_to_int32 rtl_home_alt, relative_alt := False\<rparr>"
proof -
  have veto: "\<not> fst (find_nearest_rally_point get_distance is_valid uninit s current_loc ret)" for ret
  proof -
    obtain m r where l: "find_nearest_loop get_distance is_valid uninit s current_loc 0 (- 1) ret = (m, r)"
      by (cases "find_nearest_loop get_distance is_valid uninit s current_loc 0 (- 1) ret")
    from find_nearest_loop_beyond_limit [where L = "float_mul (rally_limit_km s) 1000" and min_dis = "- 1"
        and i = 0 and return_loc = ret and get_distance = get_distance and is_valid = is_valid
        and uninit = uninit and s = s and current_loc = current_loc, OF assms(2)] l
    have "m = - 1 \<or> float_mul (rally_limit_km s) 1000 < m"
      by simp
    with assms(1) l show ?thesis
      by (auto simp: find_nearest_rally_point_def)
  qed
  from veto [of RallyLocation_zero] have
    "calc_best_rally_or_home_location get_distance is_valid uninit s current_loc rtl_home_alt failsafe =
      (home s)\<lparr>alt := float_to_int32 rtl_home_alt, relative_alt := False\<rparr>"
    by (cases "find_nearest_rally_point get_distance is_valid uninit s current_loc RallyLocation_zero")
      (simp add: calc_best_rally_or_home_location_def Let_def)
  with veto [of return_loc] show ?thesis by simp
qed

lemma find_nearest_loop_first_minimum:
  assumes at_k: "get_rally_point_with_index k (uninit k) s = (True, rk)"
    and valid_k: "is_valid (rally_location_to_location rk s)"
    and d: "d = get_distance current_loc (rally_location_to_location rk s)"
    and nonneg: "0 \<le> d"
    and least: "\<forall>j r. get_rally_point_with_index j (uninit j) s = (True, r) \<and>
      is_valid (rally_location_to_location r s) \<longrightarrow>
      d \<le> get_distance current_loc (rally_location_to_location r s)"
    and first: "\<forall>j r. j < k \<and> get_rally_point_with_index j (uninit j) s = (True, r) \<and>
      is_valid (rally_location_to_location r s) \<longrightarrow>
      d < get_distance current_loc (rally_location_to_location r s)"
  shows "(i \<le> k \<and> (min_dis < 0 \<or> d < min_dis)) \<or> (k < i \<and> min_dis = d \<and> return_loc = rk) \<Longrightarrow>
    find_nearest_loop get_distance is_valid uninit s current_loc i min_dis return_loc = (d, rk)"
  using assms
proof (induction get_distance is_valid uninit s current_loc i min_dis return_loc
    rule: find_nearest_loop.induct)
  case (1 get_distance is_valid uninit s current_loc i min_dis return_loc)
  note hyps = "1.prems"(2-7)
  from "1.prems"(2) have k_lt: "k < rally_point_total_count s"
    by (auto simp: get_rally_point_with_index_def split: if_splits)
  show ?case
  proof (cases "i < rally_point_total_count s")
    case False
    with k_lt have "\<not> i \<le> k" by auto
    with "1.prems"(1) False show ?thesis
      by (simp add: find_nearest_loop_done)
  next
    case True
    then have succ: "unat (i + 1) = unat i + 1"
      by (rule unat_succ_below)
    obtain ok next_rally where g: "get_rally_point_with_index i (uninit i) s = (ok, next_rally)"
      by (cases "get_rally_point_with_index i (uninit i) s")
    let ?dis = "get_distance current_loc (rally_location_to_location next_rally s)"
    show ?thesis
    proof (cases "ok \<and> is_valid (rally_location_to_location next_rally s) \<and>
        (?dis < min_dis \<or> min_dis < 0)")
      case update: True
      with g have g': "get_rally_point_with_index i (uninit i) s = (True, next_rally)"
        by simp
      from update have c: "is_valid (rally_location_to_location next_rally s) \<and>
          (?dis < min_dis \<or> min_dis < 0)"
        by simp
      from g' c "1.prems"(6) have ge: "d \<le> ?dis" by blast
      have "i \<le> k"
      proof (rule ccontr)
        assume "\<not> i \<le> k"
        with "1.prems"(1) have "min_dis = d" by auto
        with c ge "1.prems"(5) show False by auto
      qed
      have next_inv: "(i + 1 \<le> k \<and> (?dis < 0 \<or> d < ?dis)) \<or>
          (k < i + 1 \<and> ?dis = d \<and> next_rally = rk)"
      proof (cases "i = k")
        case True
        with g' "1.prems"(2,4) have "next_rally = rk" "?dis = d" by simp_all
        moreover from True succ have "k < i + 1"
          by (simp add: word_less_nat_alt)
        ultimately show ?thesis by simp
      next
        case False
        with \<open>i \<le> k\<close> have "i < k" by simp
        with g' c "1.prems"(7) have "d < ?dis" by blast
        moreover from \<open>i < k\<close> succ have "i + 1 \<le> k"
          by (simp add: word_less_nat_alt word_le_nat_alt)
        ultimately show ?thesis by simp
      qed
      from "1.IH"(1) [OF True g' [symmetric] refl refl refl c next_inv hyps]
      show ?thesis
        using True g' c by (simp add: find_nearest_loop_take)
    next
      case keep: False
      have not_k: "i \<noteq> k"
      proof
        assume "i = k"
        with g "1.prems"(2,4) have "ok" "next_rally = rk" "?dis = d" by simp_all
        moreover from \<open>i = k\<close> "1.prems"(1) have "min_dis < 0 \<or> d < min_dis" by auto
        ultimately show False using keep "1.prems"(3) by auto
      qed
      have next_inv: "(i + 1 \<le> k \<and> (min_dis < 0 \<or> d < min_dis)) \<or>
          (k < i + 1 \<and> min_dis = d \<and> return_loc = rk)"
      proof (cases "i \<le> k")
        case True
        with not_k have "i < k" by simp
        with succ have "i + 1 \<le> k"
          by (simp add: word_less_nat_alt word_le_nat_alt)
        with True "1.prems"(1) show ?thesis by auto
      next
        case False
        then have "k < i" by simp
        with succ have "k < i + 1"
          by (simp add: word_less_nat_alt)
        with False "1.prems"(1) show ?thesis by auto
      qed
      have "find_nearest_loop get_distance is_valid uninit s current_loc (i + 1) min_dis return_loc =
          (d, rk)"
      proof (cases ok)
        case False
        with g have "(False, next_rally) = get_rally_point_with_index i (uninit i) s"
          by simp
        from "1.IH"(3) [OF True this refl next_inv hyps] show ?thesis .
      next
        case ok: True
        with g have g': "(True, next_rally) = get_rally_point_with_index i (uninit i) s"
          by simp
        from keep ok have "\<not> (is_valid (rally_location_to_location next_rally s) \<and>
            (?dis < min_dis \<or> min_dis < 0))"
          by simp
        from "1.IH"(2) [OF True g' refl refl refl this next_inv hyps] show ?thesis .
      qed
      moreover have "find_nearest_loop get_distance is_valid uninit s current_loc i min_dis return_loc =
          find_nearest_loop get_distance is_valid uninit s current_loc (i + 1) min_dis return_loc"
        using True g keep by (rule find_nearest_loop_keep)
      ultimately show ?thesis
        by (simp only:)
    qed
  qed
qed

text \<open>
  Claim C7. Let the record at index \<open>k\<close> be a valid rally point such that no valid
  point is strictly closer to the current position and every valid point at a lower
  index is strictly farther: \<open>k\<close> is the lowest index at the minimum distance. Then
  \<open>find_nearest_rally_point\<close> selects the record at \<open>k\<close>, whatever valid points at
  the same distance follow at higher indices, and reports success unless the distance
  limit vetoes it.
\<close>

theorem find_nearest_first_of_equal_wins:
  assumes "get_rally_point_with_index k (uninit k) s = (True, rk)"
    and "is_valid (rally_location_to_location rk s)"
    and "0 \<le> get_distance current_loc (rally_location_to_location rk s)"
    and "\<forall>j r. get_rally_point_with_index j (uninit j) s = (True, r) \<and>
      is_valid (rally_location_to_location r s) \<longrightarrow>
      get_distance current_loc (rally_location_to_location rk s) \<le>
        get_distance current_loc (rally_location_to_location r s)"
    and "\<forall>j r. j < k \<and> get_rally_point_with_index j (uninit j) s = (True, r) \<and>
      is_valid (rally_location_to_location r s) \<longrightarrow>
      get_distance current_loc (rally_location_to_location rk s) <
        get_distance current_loc (rally_location_to_location r s)"
  shows "find_nearest_rally_point get_distance is_valid uninit s current_loc return_loc =
    (\<not> (0 < rally_limit_km s \<and>
        float_mul (rally_limit_km s) 1000 <
          get_distance current_loc (rally_location_to_location rk s)), rk)"
proof -
  have "find_nearest_loop get_distance is_valid uninit s current_loc 0 (- 1) return_loc =
      (get_distance current_loc (rally_location_to_location rk s), rk)"
    using assms(1,2) refl assms(3,4,5)
    by (rule find_nearest_loop_first_minimum) simp
  with assms(3) show ?thesis
    by (simp add: find_nearest_rally_point_def)
qed

section \<open>The scan on the concrete store\<close>

lemma byte_below_3: "j < 3 \<Longrightarrow> j = 0 \<or> j = 1 \<or> j = 2" for j :: "8 word"
proof -
  assume "j < 3"
  then have "unat j < 3" by (simp add: word_less_nat_alt)
  then have "unat j = 0 \<or> unat j = 1 \<or> unat j = 2" by arith
  then show ?thesis by (auto simp: word_unat_eq_iff)
qed

lemma state0_points:
  assumes "get_rally_point_with_index j RallyLocation_zero state0 = (True, r)"
  shows "(j = 0 \<and> r = rally0) \<or> (j = 1 \<and> r = rally1) \<or> (j = 2 \<and> r = rally2)"
proof -
  have g: "get_rally_point_with_index 0 RallyLocation_zero state0 = (True, rally0)"
    "get_rally_point_with_index 1 RallyLocation_zero state0 = (True, rally1)"
    "get_rally_point_with_index 2 RallyLocation_zero state0 = (True, rally2)"
    by code_simp+
  have "rally_point_total_count state0 = 3" by (simp add: state0_def)
  with assms have "j < 3"
    by (auto simp: get_rally_point_with_index_def split: if_splits)
  then have "j = 0 \<or> j = 1 \<or> j = 2" by (rule byte_below_3)
  with assms g show ?thesis by auto
qed

lemma state1_get:
  "get_rally_point_with_index j ret state1 = get_rally_point_with_index j ret state0"
  by (simp add: get_rally_point_with_index_def state1_def)

lemma here0_distances:
  "lat_distance here0 (rally_location_to_location rally0 s) = 2000"
  "lat_distance here0 (rally_location_to_location rally1 s) = 1500"
  "lat_distance here0 (rally_location_to_location rally2 s) = 1500"
  by (simp_all add: lat_distance_def here0_def rally_location_to_location_def
      rally0_def rally1_def rally2_def)

theorem distance_limit_veto_witness:
  "0 < rally_limit_km state1 \<and> rally_incl_home state1 \<noteq> 0 \<and>
   float_mul (rally_limit_km state1) 1000 = 1000 \<and>
   get_rally_point_with_index 1 RallyLocation_zero state1 = (True, rally1) \<and>
   lat_distance here0 (rally_location_to_location rally1 state1) = 1500 \<and>
   lat_distance here0 (rally_location_to_location rally1 state1) < lat_distance here0 (home state1) \<and>
   \<not> fst (find_nearest_rally_point lat_distance (\<lambda>_. True) (\<lambda>_. RallyLocation_zero) state1 here0
       RallyLocation_zero) \<and>
   calc_best_rally_or_home_location lat_distance (\<lambda>_. True) (\<lambda>_. RallyLocation_zero) state1 here0
     300 True = \<lparr>relative_alt = False, alt = 300, lat = 5000, lng = 0\<rparr>"
proof -
  have lim: "0 < rally_limit_km state1" and incl: "rally_incl_home state1 \<noteq> 0"
    by (simp_all add: state1_def state0_def)
  have far: "\<forall>j r. get_rally_point_with_index j ((\<lambda>_. RallyLocation_zero) j) state1 = (True, r) \<and>
      (\<lambda>_. True) (rally_location_to_location r state1) \<longrightarrow>
      float_mul (rally_limit_km state1) 1000 <
        lat_distance here0 (rally_location_to_location r state1)"
  proof (intro allI impI)
    fix j r
    assume "get_rally_point_with_index j ((\<lambda>_. RallyLocation_zero) j) state1 = (True, r) \<and>
      (\<lambda>_. True) (rally_location_to_location r state1)"
    then have "get_rally_point_with_index j RallyLocation_zero state0 = (True, r)"
      by (simp add: state1_get)
    from state0_points [OF this] have "r = rally0 \<or> r = rally1 \<or> r = rally2"
      by blast
    moreover have "float_mul (rally_limit_km state1) 1000 = 1000"
      by code_simp
    ultimately show "float_mul (rally_limit_km state1) 1000 <
        lat_distance here0 (rally_location_to_location r state1)"
      by (auto simp: here0_distances)
  qed
  have g: "get_rally_point_with_index 1 RallyLocation_zero state1 = (True, rally1)"
    by code_simp
  have h: "lat_distance here0 (home state1) = 5000"
    by (simp add: lat_distance_def here0_def state1_def state0_def home0_def)
  have "(home state1)\<lparr>alt := float_to_int32 300, relative_alt := False\<rparr> =
      \<lparr>relative_alt = False, alt = 300, lat = 5000, lng = 0\<rparr>"
    by (simp add: state1_def state0_def home0_def float_to_int32_def)
  moreover have m: "float_mul (rally_limit_km state1) 1000 = 1000"
    by code_simp
  ultimately have "(home state1)\<lparr>alt := float_to_int32 300, relative_alt := False\<rparr> =
      \<lparr>relative_alt = False, alt = 300, lat = 5000, lng = 0\<rparr> \<and>
      float_mul (rally_limit_km state1) 1000 = 1000"
    by simp
  with distance_limit_veto [where s = state1 and uninit = "\<lambda>_. RallyLocation_zero"
      and is_valid = "\<lambda>_. True" and get_distance = lat_distance and current_loc = here0
      and return_loc = RallyLocation_zero and rtl_home_alt = 300 and failsafe = True, OF lim far]
    lim incl g h
  show ?thesis
    by (simp add: here0_distances)
qed

text \<open>
  The claim as stated, with the limit in metres as the exact product, fails by the
  rounding of the product: the limit 0.7 km is the \<open>float\<close> \<open>11744051 / 2^24\<close>, its
  exact product with 1000 is below 700, and the \<open>float\<close> product is 700. With the three
  stored points at 1200, 700 and 2300 metres, every one of them is farther than the
  exact product, yet the search succeeds and the rally point at 700 metres is returned
  instead of home.
\<close>

theorem distance_limit_exact_product_counterexample:
  "0 < rally_limit_km state2 \<and>
   rally_limit_km state2 * 1000 < 700 \<and>
   float_mul (rally_limit_km state2) 1000 = 700 \<and>
   rally_point_total_count state2 = 3 \<and>
   get_rally_point_with_index 0 RallyLocation_zero state2 = (True, rally0) \<and>
   get_rally_point_with_index 1 RallyLocation_zero state2 = (True, rally1) \<and>
   get_rally_point_with_index 2 RallyLocation_zero state2 = (True, rally2) \<and>
   lat_distance here2 (rally_location_to_location rally0 state2) = 1200 \<and>
   lat_distance here2 (rally_location_to_location rally1 state2) = 700 \<and>
   lat_distance here2 (rally_location_to_location rally2 state2) = 2300 \<and>
   rally_incl_home state2 \<noteq> 0 \<and>
   find_nearest_rally_point lat_distance (\<lambda>_. True) (\<lambda>_. RallyLocation_zero) state2 here2
     RallyLocation_zero = (True, rally1) \<and>
   calc_best_rally_or_home_location lat_distance (\<lambda>_. True) (\<lambda>_. RallyLocation_zero) state2 here2
     300 False = rally_location_to_location rally1 state2 \<and>
   rally_location_to_location rally1 state2 \<noteq>
     (home state2)\<lparr>alt := float_to_int32 300, relative_alt := False\<rparr>"
  by code_simp

theorem find_nearest_first_of_equal_wins_witness:
  "get_rally_point_with_index 1 RallyLocation_zero state0 = (True, rally1) \<and>
   get_rally_point_with_index 2 RallyLocation_zero state0 = (True, rally2) \<and>
   rally1 \<noteq> rally2 \<and>
   lat_distance here0 (rally_location_to_location rally1 state0) =
     lat_distance here0 (rally_location_to_location rally2 state0) \<and>
   find_nearest_rally_point lat_distance (\<lambda>_. True) (\<lambda>_. RallyLocation_zero) state0 here0
     RallyLocation_zero = (True, rally1)"
proof -
  have g: "get_rally_point_with_index 1 ((\<lambda>_. RallyLocation_zero) 1) state0 = (True, rally1)"
    and g2: "get_rally_point_with_index 2 RallyLocation_zero state0 = (True, rally2)"
    by code_simp+
  have v: "(\<lambda>_. True) (rally_location_to_location rally1 state0)"
    by simp
  have n: "0 \<le> lat_distance here0 (rally_location_to_location rally1 state0)"
    by (simp add: here0_distances)
  have least: "\<forall>j r. get_rally_point_with_index j ((\<lambda>_. RallyLocation_zero) j) state0 = (True, r) \<and>
      (\<lambda>_. True) (rally_location_to_location r state0) \<longrightarrow>
      lat_distance here0 (rally_location_to_location rally1 state0) \<le>
        lat_distance here0 (rally_location_to_location r state0)"
  proof (intro allI impI)
    fix j r
    assume "get_rally_point_with_index j ((\<lambda>_. RallyLocation_zero) j) state0 = (True, r) \<and>
      (\<lambda>_. True) (rally_location_to_location r state0)"
    then have "get_rally_point_with_index j RallyLocation_zero state0 = (True, r)"
      by simp
    from state0_points [OF this] have "r = rally0 \<or> r = rally1 \<or> r = rally2"
      by blast
    then show "lat_distance here0 (rally_location_to_location rally1 state0) \<le>
        lat_distance here0 (rally_location_to_location r state0)"
      by (auto simp: here0_distances)
  qed
  have first: "\<forall>j r. j < 1 \<and> get_rally_point_with_index j ((\<lambda>_. RallyLocation_zero) j) state0 = (True, r) \<and>
      (\<lambda>_. True) (rally_location_to_location r state0) \<longrightarrow>
      lat_distance here0 (rally_location_to_location rally1 state0) <
        lat_distance here0 (rally_location_to_location r state0)"
  proof (intro allI impI)
    fix j :: "8 word" and r
    assume a: "j < 1 \<and> get_rally_point_with_index j ((\<lambda>_. RallyLocation_zero) j) state0 = (True, r) \<and>
      (\<lambda>_. True) (rally_location_to_location r state0)"
    then have "get_rally_point_with_index j RallyLocation_zero state0 = (True, r)"
      by blast
    from state0_points [OF this] a have "r = rally0"
      by auto
    then show "lat_distance here0 (rally_location_to_location rally1 state0) <
        lat_distance here0 (rally_location_to_location r state0)"
      by (simp add: here0_distances)
  qed
  have ne: "rally1 \<noteq> rally2"
    by (simp add: rally1_def rally2_def)
  have "rally_limit_km state0 = 0" by (simp add: state0_def)
  with find_nearest_first_of_equal_wins [where s = state0 and uninit = "\<lambda>_. RallyLocation_zero"
      and is_valid = "\<lambda>_. True" and get_distance = lat_distance and current_loc = here0
      and return_loc = RallyLocation_zero and k = 1 and rk = rally1, OF g v n least first] g g2 ne
  show ?thesis
    by (simp add: here0_distances)
qed

end
